theory Spec2Isabelle
  imports Main "HOL-Library.AList"
begin

text \<open>
  The class \<open>MongoStore\<close> of \<open>src/mongoStore.ts\<close>: a bot-state storage on a MongoDB
  collection with an optional Redis cache in front of it. Every method is a function of
  the store object, the world outside it and the time of the call, and returns its promise
  and the world it leaves; \<open>write\<close>, which changes the objects it is given, also takes and
  returns the heap of its caller.
\<close>

section \<open>Values, errors and the runtime\<close>

text \<open>
  A state payload is a JavaScript value that \<open>JSON.stringify\<close> can write: the model keeps
  the JSON part of it, as a tree. An object is its list of own properties in insertion
  order, so that setting an own property is \<open>AList.update k v\<close>: the value is replaced in
  place when the property exists and appended otherwise. Numbers are kept as integers.
\<close>

datatype json =
    JNull
  | JBool bool
  | JNum int
  | JStr string
  | JArr "json list"
  | JObj "(string \<times> json) list"

type_synonym StoreItems = "(string \<times> json) list"

text \<open>
  The payloads a caller passes to \<open>write\<close> are objects with an identity: the same object
  may stand under two keys, and \<open>write\<close> changes it in place. The caller's memory is a heap
  from addresses to payloads, and the \<open>changes\<close> argument lists its own keys (as
  \<open>Object.keys\<close> does) with the address of the payload of each. A cell holds the whole
  tree of its payload: what is nested in a payload belongs to that payload alone.
\<close>

type_synonym heap = "nat \<Rightarrow> json"

type_synonym StoreItemsRef = "(string \<times> nat) list"

text \<open>
  Every \<open>throw\<close> and every rejected promise of the source is a value of this type.
  \<open>MongoError\<close> and \<open>RedisError\<close> are what the two client libraries reject with.
\<close>

datatype error = NO_URL_ERROR | TypeError | SyntaxError | MongoError | RedisError

text \<open>
  \<open>JSON.parse\<close>, \<open>JSON.stringify\<close> and \<open>new ObjectId().toHexString()\<close> belong to the
  platform, not to the repository: the operations take them as a parameter.
  \<open>JSON_parse\<close> gives \<open>None\<close> where the platform throws a SyntaxError;
  \<open>ObjectId_hex n\<close> is the identifier the process generates after \<open>n\<close> earlier ones.
\<close>

record runtime =
  JSON_parse :: "string \<Rightarrow> json option"
  JSON_stringify :: "json \<Rightarrow> string"
  ObjectId_hex :: "nat \<Rightarrow> string"

text \<open>
  A promise is the logical time at which it settles and its outcome (\<open>Inl\<close>: rejected).
  An \<open>async\<close> function called at time \<open>t\<close> runs to its first \<open>await\<close> at \<open>t\<close>; awaiting a
  promise resumes it when the promise has settled.
\<close>

type_synonym 'a promise = "nat \<times> (error + 'a)"

fun earliest_rejection :: "'a promise list \<Rightarrow> (nat \<times> error) option" where
  "earliest_rejection [] = None"
| "earliest_rejection ((tp, Inr v) # ps) = earliest_rejection ps"
| "earliest_rejection ((tp, Inl e) # ps) =
     (case earliest_rejection ps of
        None \<Rightarrow> Some (tp, e)
      | Some (tq, e') \<Rightarrow> if tq < tp then Some (tq, e') else Some (tp, e))"

fun fulfilled_values :: "'a promise list \<Rightarrow> 'a list" where
  "fulfilled_values [] = []"
| "fulfilled_values ((tp, Inr v) # ps) = v # fulfilled_values ps"
| "fulfilled_values ((tp, Inl e) # ps) = fulfilled_values ps"

text \<open>
  \<open>Promise.all\<close>, called at time \<open>t\<close>: it rejects as soon as one of its promises has
  rejected, with that promise's error (the first to reject; of two that reject at the same
  time, the earlier in the list), and fulfils when all have fulfilled.
\<close>

definition Promise_all :: "nat \<Rightarrow> 'a promise list \<Rightarrow> 'a list promise" where
  "Promise_all t ps =
     (case earliest_rejection ps of
        Some (tp, e) \<Rightarrow> (max t tp, Inl e)
      | None \<Rightarrow> (fold max (map fst ps) t, Inr (fulfilled_values ps)))"

text \<open>
  The objects that \<open>read\<close> builds and returns start as \<open>{}\<close>: own properties, and a
  prototype, which is \<open>Object.prototype\<close> at first. The prototype matters for one key:
  \<open>Object.prototype\<close> has an accessor \<open>__proto__\<close>, and \<open>obj['__proto__'] = v\<close> on an object
  that inherits it calls its setter, which makes \<open>v\<close> the prototype of \<open>obj\<close> when \<open>v\<close> is an
  object, an array or \<open>null\<close>, does nothing for a primitive value, and in no case creates
  an own property.
\<close>

datatype prototype = ObjectPrototype | NullPrototype | ValuePrototype json

record jsobject =
  own :: StoreItems
  proto :: prototype

definition empty_object :: jsobject where
  "empty_object = \<lparr>own = [], proto = ObjectPrototype\<rparr>"

text \<open>
  Whether the look-up of \<open>__proto__\<close> along the prototype chain ends at the accessor of
  \<open>Object.prototype\<close>: not when the chain is empty, and not when the prototype is a parsed
  object that has an own property of that name (\<open>JSON.parse\<close> creates one for the key).
  A parsed object or array has \<open>Object.prototype\<close> at the end of its own chain.
\<close>

fun reaches_proto_setter :: "prototype \<Rightarrow> bool" where
  "reaches_proto_setter ObjectPrototype = True"
| "reaches_proto_setter NullPrototype = False"
| "reaches_proto_setter (ValuePrototype (JObj props)) = (''__proto__'' \<notin> set (map fst props))"
| "reaches_proto_setter (ValuePrototype other) = True"

fun proto_setter :: "jsobject \<Rightarrow> json \<Rightarrow> jsobject" where
  "proto_setter obj (JObj props) = obj\<lparr>proto := ValuePrototype (JObj props)\<rparr>"
| "proto_setter obj (JArr xs) = obj\<lparr>proto := ValuePrototype (JArr xs)\<rparr>"
| "proto_setter obj JNull = obj\<lparr>proto := NullPrototype\<rparr>"
| "proto_setter obj other = obj"

text \<open>
  \<open>obj[k] = v\<close>: the setter for \<open>__proto__\<close> when \<open>obj\<close> has no own property of that name and
  inherits the accessor; an own data property in every other case (every other inherited
  property is a writable data property).
\<close>

definition js_set :: "jsobject \<Rightarrow> string \<Rightarrow> json \<Rightarrow> jsobject" where
  "js_set obj k v =
     (if k = ''__proto__'' \<and> k \<notin> set (map fst (own obj)) \<and> reaches_proto_setter (proto obj)
      then proto_setter obj v
      else obj\<lparr>own := AList.update k v (own obj)\<rparr>)"

text \<open>
  \<open>Object.assign(target, source)\<close>: every own property of the source, in order, is set
  on the target.
\<close>

definition Object_assign :: "jsobject \<Rightarrow> jsobject \<Rightarrow> jsobject" where
  "Object_assign target source = fold (\<lambda>(k, v) obj. js_set obj k v) (own source) target"

section \<open>The two backends\<close>

text \<open>
  A document of the collection; its \<open>_id\<close> is the key under which the collection holds it.
  \<open>date\<close> is the logical time of the write.
\<close>

record MongoStoreDocument =
  state :: string
  date :: nat
  etag :: string

datatype WriteConcern = W0 | WMajority

text \<open>The requests the store sends, in the order it sends them.\<close>

datatype call =
    MongoFind "string list"
  | MongoBulkWrite "(string \<times> MongoStoreDocument) list" WriteConcern
  | MongoDeleteMany "string list" WriteConcern
  | MongoPing
  | RedisGet string
  | RedisSet string string nat
  | RedisDel string
  | RedisPing

text \<open>
  Everything outside the store object: the collection, the cache (a value with the time
  at which it expires), how the two servers behave (a server that fails rejects every
  request and changes nothing; a request settles one latency after it is sent and takes
  effect when it is sent), the requests sent so far and the number of ObjectIds
  generated so far.
\<close>

record world =
  documents :: "string \<rightharpoonup> MongoStoreDocument"
  cacheEntries :: "string \<rightharpoonup> string \<times> nat"
  mongoFails :: bool
  redisFails :: bool
  mongoPingOk :: bool
  redisPingReply :: string
  mongoLatency :: nat
  redisLatency :: nat
  calls :: "call list"
  objectIds :: nat

definition sent :: "call \<Rightarrow> world \<Rightarrow> world" where
  "sent c w = w\<lparr>calls := calls w @ [c]\<rparr>"

definition mongo_settle :: "world \<Rightarrow> nat \<Rightarrow> 'a \<Rightarrow> 'a promise" where
  "mongo_settle w t v = (t + mongoLatency w, if mongoFails w then Inl MongoError else Inr v)"

definition redis_settle :: "world \<Rightarrow> nat \<Rightarrow> 'a \<Rightarrow> 'a promise" where
  "redis_settle w t v = (t + redisLatency w, if redisFails w then Inl RedisError else Inr v)"

text \<open>\<open>find({_id: {$in: keys}}).toArray()\<close>: the documents whose \<open>_id\<close> is among the keys.\<close>

definition mongo_find ::
  "world \<Rightarrow> nat \<Rightarrow> string list \<Rightarrow> (string \<times> MongoStoreDocument) list promise \<times> world" where
  "mongo_find w t ks =
     (mongo_settle w t
        (List.map_filter (\<lambda>k. map_option (Pair k) (documents w k)) (remdups ks)),
      sent (MongoFind ks) w)"

text \<open>
  \<open>bulkWrite\<close> of \<open>updateOne\<close> operations with \<open>upsert: true\<close>, each setting the three
  fields of the document with the given \<open>_id\<close>; applied in order.
\<close>

definition upsert ::
  "string \<times> MongoStoreDocument \<Rightarrow> (string \<rightharpoonup> MongoStoreDocument) \<Rightarrow>
   (string \<rightharpoonup> MongoStoreDocument)" where
  "upsert op docs = docs(fst op \<mapsto> snd op)"

definition mongo_bulkWrite ::
  "world \<Rightarrow> nat \<Rightarrow> (string \<times> MongoStoreDocument) list \<Rightarrow> WriteConcern \<Rightarrow>
   unit promise \<times> world" where
  "mongo_bulkWrite w t ops wc =
     (mongo_settle w t (),
      sent (MongoBulkWrite ops wc)
        (if mongoFails w then w else w\<lparr>documents := fold upsert ops (documents w)\<rparr>))"

definition mongo_deleteMany ::
  "world \<Rightarrow> nat \<Rightarrow> string list \<Rightarrow> WriteConcern \<Rightarrow> unit promise \<times> world" where
  "mongo_deleteMany w t ks wc =
     (mongo_settle w t (),
      sent (MongoDeleteMany ks wc)
        (if mongoFails w then w
         else w\<lparr>documents := (\<lambda>k. if k \<in> set ks then None else documents w k)\<rparr>))"

text \<open>\<open>admin().command({ping: 1})\<close>: the reply's \<open>ok\<close>.\<close>

definition mongo_ping :: "world \<Rightarrow> nat \<Rightarrow> bool promise \<times> world" where
  "mongo_ping w t = (mongo_settle w t (mongoPingOk w), sent MongoPing w)"

text \<open>\<open>GET\<close>: the value, or \<open>None\<close> (JavaScript's \<open>null\<close>) for a key that is absent or expired.\<close>

definition cache_lookup :: "world \<Rightarrow> nat \<Rightarrow> string \<Rightarrow> string option" where
  "cache_lookup w t k =
     (case cacheEntries w k of
        None \<Rightarrow> None
      | Some (v, expires) \<Rightarrow> if t < expires then Some v else None)"

definition redis_get :: "world \<Rightarrow> nat \<Rightarrow> string \<Rightarrow> string option promise \<times> world" where
  "redis_get w t k = (redis_settle w t (cache_lookup w t k), sent (RedisGet k) w)"

text \<open>\<open>SET key value EX seconds\<close>.\<close>

definition redis_set ::
  "world \<Rightarrow> nat \<Rightarrow> string \<Rightarrow> string \<Rightarrow> nat \<Rightarrow> unit promise \<times> world" where
  "redis_set w t k v ex =
     (redis_settle w t (),
      sent (RedisSet k v ex)
        (if redisFails w then w else w\<lparr>cacheEntries := (cacheEntries w)(k \<mapsto> (v, t + ex))\<rparr>))"

definition redis_del :: "world \<Rightarrow> nat \<Rightarrow> string \<Rightarrow> unit promise \<times> world" where
  "redis_del w t k =
     (redis_settle w t (),
      sent (RedisDel k)
        (if redisFails w then w else w\<lparr>cacheEntries := (cacheEntries w)(k := None)\<rparr>))"

definition redis_ping :: "world \<Rightarrow> nat \<Rightarrow> string promise \<times> world" where
  "redis_ping w t = (redis_settle w t (redisPingReply w), sent RedisPing w)"

text \<open>
  \<open>xs.map(async (x) => ...)\<close>: the calls are started in order, each on the world the
  earlier ones left, and their promises collected.
\<close>

fun start_all ::
  "(world \<Rightarrow> 'x \<Rightarrow> 'a promise \<times> world) \<Rightarrow> world \<Rightarrow> 'x list \<Rightarrow> 'a promise list \<times> world" where
  "start_all f w [] = ([], w)"
| "start_all f w (x # xs) =
     (case f w x of (p, w') \<Rightarrow>
        (case start_all f w' xs of (ps, w'') \<Rightarrow> (p # ps, w'')))"

section \<open>The store object\<close>

type_synonym MongoClientOptions = string
type_synonym RedisClientOptions = string

record MongoStoreOptions =
  database_opt :: "string option"
  collection_opt :: "string option"
  mongo_opt :: "MongoClientOptions option"
  redis_opt :: "RedisClientOptions option"
  cacheExpiration_opt :: "nat option"
  disableWriteConcern_opt :: "bool option"

text \<open>
  The fields of the class. \<open>rClient\<close> is \<open>None\<close> (JavaScript's \<open>undefined\<close>) until the
  constructor creates the client.
\<close>

record MongoStore =
  uri :: string
  dbName :: string
  colName :: string
  key :: string
  isCacheEnabled :: bool
  options :: MongoStoreOptions
  mClient :: "string \<times> MongoClientOptions option"
  rClient :: "RedisClientOptions option"
  cacheExpiration :: nat
  disableWriteConcern :: bool

definition DEFAULT_DATABASE_NAME :: string where
  "DEFAULT_DATABASE_NAME = ''botstorage''"

definition DEFAULT_COLLECTION_NAME :: string where
  "DEFAULT_COLLECTION_NAME = ''conversations''"

definition DEFAULT_DOCUMENT_KEY :: string where
  "DEFAULT_DOCUMENT_KEY = ''_id''"

definition DEFAULT_CACHE_EXPIRATION_TIME :: nat where
  "DEFAULT_CACHE_EXPIRATION_TIME = 1209600"

text \<open>\<open>String.prototype.trim\<close>, on the white space of ASCII.\<close>

definition is_space :: "char \<Rightarrow> bool" where
  "is_space c = (c \<in> set [CHR 0x09, CHR 0x0A, CHR 0x0B, CHR 0x0C, CHR 0x0D, CHR 0x20])"

definition trim :: "string \<Rightarrow> string" where
  "trim s = rev (dropWhile is_space (rev (dropWhile is_space s)))"

text \<open>\<open>name && name.trim()\<close> chooses the trimmed name, anything else the default.\<close>

definition name_or :: "string \<Rightarrow> string option \<Rightarrow> string" where
  "name_or dflt given =
     (case given of
        None \<Rightarrow> dflt
      | Some s \<Rightarrow> if s \<noteq> [] \<and> trim s \<noteq> [] then trim s else dflt)"

text \<open>
  The constructor. \<open>options.cacheExpiration || DEFAULT\<close> takes the default for \<open>0\<close> too;
  \<open>options.disableWriteConcern || false\<close> is false when the flag is not given.
\<close>

definition MongoStore_new :: "string \<Rightarrow> MongoStoreOptions \<Rightarrow> error + MongoStore" where
  "MongoStore_new u opts =
     (if u = [] \<or> trim u = [] then Inl NO_URL_ERROR
      else Inr \<lparr>
        uri = u,
        dbName = name_or DEFAULT_DATABASE_NAME (database_opt opts),
        colName = name_or DEFAULT_COLLECTION_NAME (collection_opt opts),
        key = DEFAULT_DOCUMENT_KEY,
        isCacheEnabled = (redis_opt opts \<noteq> None),
        options = opts,
        mClient = (u, mongo_opt opts),
        rClient = redis_opt opts,
        cacheExpiration =
          (case cacheExpiration_opt opts of
             None \<Rightarrow> DEFAULT_CACHE_EXPIRATION_TIME
           | Some n \<Rightarrow> if n = 0 then DEFAULT_CACHE_EXPIRATION_TIME else n),
        disableWriteConcern =
          (case disableWriteConcern_opt opts of None \<Rightarrow> False | Some b \<Rightarrow> b) \<rparr>)"

text \<open>\<open>writeConcern: !this.disableWriteConcern ? { w: 0 } : { w: 'majority' }\<close>.\<close>

definition writeConcern :: "MongoStore \<Rightarrow> WriteConcern" where
  "writeConcern st = (if \<not> disableWriteConcern st then W0 else WMajority)"

section \<open>Reading\<close>

text \<open>
  \<open>this.cache.get(key)\<close> inside an \<open>async\<close> arrow: with no client the property access
  throws, and the arrow's promise is rejected with the TypeError.
\<close>

definition cache_get ::
  "MongoStore \<Rightarrow> nat \<Rightarrow> world \<Rightarrow> string \<Rightarrow> string option promise \<times> world" where
  "cache_get st t w k =
     (case rClient st of
        None \<Rightarrow> ((t, Inl TypeError), w)
      | Some client \<Rightarrow> redis_get w t k)"

text \<open>
  The \<open>reduce\<close> of \<open>readRedis\<close>: \<open>if (value)\<close> holds for a string that is not empty;
  \<open>JSON.parse\<close> may throw; \<open>accum[key] = ...\<close> is an assignment to the accumulator.
\<close>

fun readRedis_reduce ::
  "runtime \<Rightarrow> jsobject \<Rightarrow> string list \<Rightarrow> (string \<times> string option) list \<Rightarrow>
   error + jsobject \<times> string list" where
  "readRedis_reduce rt accum missing [] = Inr (accum, missing)"
| "readRedis_reduce rt accum missing ((k, v) # rest) =
     (case v of
        None \<Rightarrow> readRedis_reduce rt accum (missing @ [k]) rest
      | Some text \<Rightarrow>
          if text \<noteq> [] then
            (case JSON_parse rt text of
               None \<Rightarrow> Inl SyntaxError
             | Some j \<Rightarrow> readRedis_reduce rt (js_set accum k j) missing rest)
          else readRedis_reduce rt accum (missing @ [k]) rest)"

definition readRedis ::
  "runtime \<Rightarrow> MongoStore \<Rightarrow> world \<Rightarrow> nat \<Rightarrow> string list \<Rightarrow>
   (jsobject \<times> string list) promise \<times> world" where
  "readRedis rt st w t stateKeys =
     (case start_all (cache_get st t) w stateKeys of (ps, w') \<Rightarrow>
        (case Promise_all t ps of
           (t', Inl e) \<Rightarrow> ((t', Inl e), w')
         | (t', Inr vs) \<Rightarrow> ((t', readRedis_reduce rt empty_object [] (zip stateKeys vs)), w')))"

text \<open>The \<open>reduce\<close> of \<open>readMongo\<close>: \<open>accum[item._id] = JSON.parse(item.state)\<close>.\<close>

fun readMongo_reduce ::
  "runtime \<Rightarrow> jsobject \<Rightarrow> (string \<times> MongoStoreDocument) list \<Rightarrow> error + jsobject" where
  "readMongo_reduce rt accum [] = Inr accum"
| "readMongo_reduce rt accum ((k, item) # rest) =
     (case JSON_parse rt (state item) of
        None \<Rightarrow> Inl SyntaxError
      | Some j \<Rightarrow> readMongo_reduce rt (js_set accum k j) rest)"

definition readMongo ::
  "runtime \<Rightarrow> MongoStore \<Rightarrow> world \<Rightarrow> nat \<Rightarrow> string list \<Rightarrow> jsobject promise \<times> world" where
  "readMongo rt st w t stateKeys =
     (case mongo_find w t stateKeys of (p, w') \<Rightarrow>
        (case p of
           (t', Inl e) \<Rightarrow> ((t', Inl e), w')
         | (t', Inr docs) \<Rightarrow> ((t', readMongo_reduce rt empty_object docs), w')))"

definition read ::
  "runtime \<Rightarrow> MongoStore \<Rightarrow> world \<Rightarrow> nat \<Rightarrow> string list \<Rightarrow> jsobject promise \<times> world" where
  "read rt st w t stateKeys =
     (if stateKeys = [] then ((t, Inr empty_object), w)
      else if isCacheEnabled st then
        (case readRedis rt st w t stateKeys of
           ((t1, Inl e), w1) \<Rightarrow> ((t1, Inl e), w1)
         | ((t1, Inr (cached, missing)), w1) \<Rightarrow>
             if missing \<noteq> [] then
               (case readMongo rt st w1 t1 missing of
                  ((t2, Inl e), w2) \<Rightarrow> ((t2, Inl e), w2)
                | ((t2, Inr missingStates), w2) \<Rightarrow>
                    ((t2, Inr (Object_assign (Object_assign empty_object cached) missingStates)), w2))
             else ((t1, Inr (Object_assign empty_object cached)), w1))
      else
        (case readMongo rt st w t stateKeys of
           ((t1, Inl e), w1) \<Rightarrow> ((t1, Inl e), w1)
         | ((t1, Inr mongoStates), w1) \<Rightarrow> ((t1, Inr (Object_assign empty_object mongoStates)), w1)))"

section \<open>Writing\<close>

text \<open>
  \<open>state.eTag = token\<close> in strict code: it sets the property of an object, lands on an
  array as a property that \<open>JSON.stringify\<close> does not write (the model keeps what is
  written), and throws a TypeError on \<open>null\<close> and on a primitive value.
\<close>

fun setETag :: "json \<Rightarrow> string \<Rightarrow> error + json" where
  "setETag (JObj props) token = Inr (JObj (AList.update ''eTag'' (JStr token) props))"
| "setETag (JArr xs) token = Inr (JArr xs)"
| "setETag JNull token = Inl TypeError"
| "setETag (JBool b) token = Inl TypeError"
| "setETag (JNum n) token = Inl TypeError"
| "setETag (JStr s) token = Inl TypeError"

text \<open>
  The \<open>forEach\<close> of \<open>writeMongo\<close>, from the \<open>n\<close>-th ObjectId on, at time \<open>t\<close>, on the caller's
  heap: \<open>state = changes[key]\<close> is the object at the entry's address, the assignment of the
  token changes that object in place, and the operation pushed carries its text as it is
  then. The result is the error if one entry throws, the heap as the loop leaves it, the
  operations pushed, and the number of ObjectIds generated.
\<close>

fun writeMongo_forEach ::
  "runtime \<Rightarrow> nat \<Rightarrow> nat \<Rightarrow> heap \<Rightarrow> StoreItemsRef \<Rightarrow>
   error option \<times> heap \<times> (string \<times> MongoStoreDocument) list \<times> nat" where
  "writeMongo_forEach rt t n h [] = (None, h, [], n)"
| "writeMongo_forEach rt t n h ((k, a) # rest) =
     (case setETag (h a) (ObjectId_hex rt n) of
        Inl e \<Rightarrow> (Some e, h, [], Suc n)
      | Inr state' \<Rightarrow>
          (case writeMongo_forEach rt t (Suc n) (h(a := state')) rest of
             (err, h', ops, n') \<Rightarrow>
               (err, h',
                (k, \<lparr>state = JSON_stringify rt state', date = t,
                     etag = ObjectId_hex rt n\<rparr>) # ops,
                n')))"

text \<open>\<open>writeMongo\<close> returns its promise, the caller's heap as it leaves it, and the world.\<close>

definition writeMongo ::
  "runtime \<Rightarrow> MongoStore \<Rightarrow> world \<Rightarrow> nat \<Rightarrow> heap \<Rightarrow> StoreItemsRef \<Rightarrow>
   unit promise \<times> heap \<times> world" where
  "writeMongo rt st w t h changes =
     (case writeMongo_forEach rt t (objectIds w) h changes of
        (Some e, h', ops, n) \<Rightarrow> ((t, Inl e), h', w\<lparr>objectIds := n\<rparr>)
      | (None, h', ops, n) \<Rightarrow>
          (case mongo_bulkWrite (w\<lparr>objectIds := n\<rparr>) t ops (writeConcern st) of
             (p, w') \<Rightarrow> (p, h', w')))"

text \<open>\<open>this.cache.set(key, JSON.stringify(changes[key]), {EX: ...})\<close>, on the heap as it is.\<close>

definition cache_set ::
  "runtime \<Rightarrow> MongoStore \<Rightarrow> nat \<Rightarrow> heap \<Rightarrow> world \<Rightarrow> string \<times> nat \<Rightarrow> unit promise \<times> world" where
  "cache_set rt st t h w entry =
     (case rClient st of
        None \<Rightarrow> ((t, Inl TypeError), w)
      | Some client \<Rightarrow>
          redis_set w t (fst entry) (JSON_stringify rt (h (snd entry))) (cacheExpiration st))"

definition writeRedis ::
  "runtime \<Rightarrow> MongoStore \<Rightarrow> world \<Rightarrow> nat \<Rightarrow> heap \<Rightarrow> StoreItemsRef \<Rightarrow> unit promise \<times> world" where
  "writeRedis rt st w t h changes =
     (case start_all (cache_set rt st t h) w changes of (ps, w') \<Rightarrow>
        (case Promise_all t ps of (t', r) \<Rightarrow> ((t', map_sum id (\<lambda>vs. ()) r), w')))"

text \<open>
  \<open>write\<close> (named \<open>write_all\<close> here, \<open>write\<close> being a keyword of the prover):
  \<open>writeMongo(changes)\<close> is called first and has run its loop, to the end or to the entry
  that throws, when \<open>writeRedis(changes)\<close> is called and serialises the payloads. It returns
  its promise, the caller's heap and the world.
\<close>

definition write_all ::
  "runtime \<Rightarrow> MongoStore \<Rightarrow> world \<Rightarrow> nat \<Rightarrow> heap \<Rightarrow> StoreItemsRef \<Rightarrow>
   unit promise \<times> heap \<times> world" where
  "write_all rt st w t h changes =
     (if changes = [] then ((t, Inr ()), h, w)
      else
        (case writeMongo rt st w t h changes of (p1, h1, w1) \<Rightarrow>
           if isCacheEnabled st then
             (case writeRedis rt st w1 t h1 changes of (p2, w2) \<Rightarrow>
                (case Promise_all t [p1, p2] of (t', r) \<Rightarrow>
                   ((t', map_sum id (\<lambda>vs. ()) r), h1, w2)))
           else
             (case Promise_all t [p1] of (t', r) \<Rightarrow>
                ((t', map_sum id (\<lambda>vs. ()) r), h1, w1))))"

section \<open>Deleting\<close>

definition cache_del :: "MongoStore \<Rightarrow> nat \<Rightarrow> world \<Rightarrow> string \<Rightarrow> unit promise \<times> world" where
  "cache_del st t w k =
     (case rClient st of
        None \<Rightarrow> ((t, Inl TypeError), w)
      | Some client \<Rightarrow> redis_del w t k)"

definition deleteRedis :: "MongoStore \<Rightarrow> world \<Rightarrow> nat \<Rightarrow> string list \<Rightarrow> unit promise \<times> world" where
  "deleteRedis st w t stateKeys =
     (case start_all (cache_del st t) w stateKeys of (ps, w') \<Rightarrow>
        (case Promise_all t ps of (t', r) \<Rightarrow> ((t', map_sum id (\<lambda>vs. ()) r), w')))"

definition deleteMongo :: "MongoStore \<Rightarrow> world \<Rightarrow> nat \<Rightarrow> string list \<Rightarrow> unit promise \<times> world" where
  "deleteMongo st w t stateKeys = mongo_deleteMany w t stateKeys (writeConcern st)"

definition delete :: "MongoStore \<Rightarrow> world \<Rightarrow> nat \<Rightarrow> string list \<Rightarrow> unit promise \<times> world" where
  "delete st w t keys =
     (if keys = [] then ((t, Inr ()), w)
      else
        (case deleteRedis st w t keys of (p1, w1) \<Rightarrow>
           (case deleteMongo st w1 t keys of (p2, w2) \<Rightarrow>
              (case Promise_all t [p1, p2] of (t', r) \<Rightarrow>
                 ((t', map_sum id (\<lambda>vs. ()) r), w2)))))"

section \<open>Health\<close>

record IPingResponse =
  ok :: nat
  mongo :: nat
  redis :: "nat option"

text \<open>
  \<open>this.rClient.ping()\<close> in the body of \<open>health\<close>: with no client the property access
  throws there (\<open>Inl\<close>); otherwise the request is sent.
\<close>

definition rClient_ping :: "MongoStore \<Rightarrow> world \<Rightarrow> nat \<Rightarrow> error + string promise \<times> world" where
  "rClient_ping st w t =
     (case rClient st of
        None \<Rightarrow> Inl TypeError
      | Some client \<Rightarrow> Inr (redis_ping w t))"

text \<open>The last lines of \<open>health\<close>: \<open>!ping.redis\<close> holds for \<open>undefined\<close> and for \<open>0\<close>.\<close>

definition health_ok :: "MongoStore \<Rightarrow> IPingResponse \<Rightarrow> IPingResponse" where
  "health_ok st ping =
     (if isCacheEnabled st \<and> (redis ping = None \<or> redis ping = Some 0)
      then ping\<lparr>ok := 0\<rparr> else ping\<lparr>ok := mongo ping\<rparr>)"

definition health :: "MongoStore \<Rightarrow> world \<Rightarrow> nat \<Rightarrow> IPingResponse promise \<times> world" where
  "health st w t =
     (case mongo_ping w t of
        ((t1, Inl e), w1) \<Rightarrow> ((t1, Inl e), w1)
      | ((t1, Inr mongoResponse), w1) \<Rightarrow>
          (case rClient_ping st w1 t1 of
             Inl e \<Rightarrow> ((t1, Inl e), w1)
           | Inr (unawaited, w2) \<Rightarrow>
               (if isCacheEnabled st then
                  (case rClient_ping st w2 t1 of
                     Inl e \<Rightarrow> ((t1, Inl e), w2)
                   | Inr ((t2, Inl e), w3) \<Rightarrow> ((t2, Inl e), w3)
                   | Inr ((t2, Inr redisResponse), w3) \<Rightarrow>
                       ((t2, Inr (health_ok st
                          \<lparr>ok = 0, mongo = (if mongoResponse then 1 else 0),
                           redis = Some (if redisResponse \<noteq> [] then 1 else 0)\<rparr>)), w3))
                else
                  ((t1, Inr (health_ok st
                     \<lparr>ok = 0, mongo = (if mongoResponse then 1 else 0), redis = None\<rparr>)),
                   w2))))"

section \<open>What the claims speak of\<close>


definition with_tag :: "json \<Rightarrow> string \<Rightarrow> json" where
  "with_tag p token = (case setETag p token of Inr p' \<Rightarrow> p' | Inl e \<Rightarrow> p)"

text \<open>The requests that change the cache, and the write concerns sent to the collection.\<close>

fun is_cache_write :: "call \<Rightarrow> bool" where
  "is_cache_write (RedisSet k v ex) = True"
| "is_cache_write (RedisDel k) = True"
| "is_cache_write other = False"

fun concerns_of :: "call list \<Rightarrow> WriteConcern list" where
  "concerns_of [] = []"
| "concerns_of (MongoBulkWrite ops wc # cs) = wc # concerns_of cs"
| "concerns_of (MongoDeleteMany ks wc # cs) = wc # concerns_of cs"
| "concerns_of (c # cs) = concerns_of cs"

text \<open>The missing set of a read: the requested keys the cache reports absent, in order.\<close>

definition cache_misses :: "world \<Rightarrow> nat \<Rightarrow> string list \<Rightarrow> string list" where
  "cache_misses w t ks = filter (\<lambda>k. cache_lookup w t k = None) ks"



text \<open>
  The upsert of such an entry, the heap after the loop has stamped every entry in order,
  the \<open>SET\<close> that is sent for an entry on a given heap, and what that \<open>SET\<close> does to the cache.
\<close>

definition upsert_of ::
  "runtime \<Rightarrow> nat \<Rightarrow> heap \<Rightarrow> nat \<times> string \<times> nat \<Rightarrow> string \<times> MongoStoreDocument" where
  "upsert_of rt t h e =
     (case e of (i, k, a) \<Rightarrow>
        (k, \<lparr>state = JSON_stringify rt (with_tag (h a) (ObjectId_hex rt i)), date = t,
             etag = ObjectId_hex rt i\<rparr>))"





section \<open>A runtime and inputs for the examples\<close>

text \<open>
  A small instance of the platform: a serialiser of JSON text, a parser that knows the
  texts of a given list of values, and identifiers numbered in decimal.
\<close>

fun show_nat :: "nat \<Rightarrow> string" where
  "show_nat n =
     (if n < 10 then [''0123456789'' ! n]
      else show_nat (n div 10) @ [''0123456789'' ! (n mod 10)])"

definition quoted :: "string \<Rightarrow> string" where
  "quoted s =
     CHR 0x22 #
     concat (map (\<lambda>c. if c = CHR 0x22 \<or> c = CHR 0x5C then [CHR 0x5C, c] else [c]) s) @
     [CHR 0x22]"

fun commas :: "string list \<Rightarrow> string" where
  "commas [] = []"
| "commas [x] = x"
| "commas (x # y # zs) = x @ '','' @ commas (y # zs)"

fun sample_stringify :: "json \<Rightarrow> string" where
  "sample_stringify JNull = ''null''"
| "sample_stringify (JBool b) = (if b then ''true'' else ''false'')"
| "sample_stringify (JNum i) =
     (if i < 0 then ''-'' @ show_nat (nat (- i)) else show_nat (nat i))"
| "sample_stringify (JStr s) = quoted s"
| "sample_stringify (JArr xs) = ''['' @ commas (map sample_stringify xs) @ '']''"
| "sample_stringify (JObj props) =
     ''{'' @ commas (map (\<lambda>p. quoted (fst p) @ '':'' @ sample_stringify (snd p)) props) @ ''}''"

definition sample_runtime :: "json list \<Rightarrow> runtime" where
  "sample_runtime known =
     \<lparr> JSON_parse = (\<lambda>text. find (\<lambda>v. sample_stringify v = text) known),
       JSON_stringify = sample_stringify,
       ObjectId_hex = (\<lambda>n. ''oid'' @ show_nat n) \<rparr>"

text \<open>
  Three configurations: no options at all, \<open>redis\<close> options (the cache is enabled), and
  \<open>disableWriteConcern: true\<close>.
\<close>

definition sample_uri :: string where
  "sample_uri = ''mongodb://localhost:27017/''"

definition plain_options :: MongoStoreOptions where
  "plain_options =
     \<lparr> database_opt = None, collection_opt = None, mongo_opt = None, redis_opt = None,
       cacheExpiration_opt = None, disableWriteConcern_opt = None \<rparr>"

definition cached_options :: MongoStoreOptions where
  "cached_options = plain_options\<lparr>redis_opt := Some ''redis://localhost:6379''\<rparr>"

definition safe_options :: MongoStoreOptions where
  "safe_options = plain_options\<lparr>disableWriteConcern_opt := Some True\<rparr>"

text \<open>
  Worlds: nothing stored and both servers well; key \<open>a\<close> in both tiers with different
  payloads and key \<open>b\<close> in the collection only; a document stored for \<open>a\<close> by an earlier
  write, seven ObjectIds ago.
\<close>

definition empty_world :: world where
  "empty_world =
     \<lparr> documents = Map.empty, cacheEntries = Map.empty, mongoFails = False,
       redisFails = False, mongoPingOk = True, redisPingReply = ''PONG'',
       mongoLatency = 1, redisLatency = 1, calls = [], objectIds = 0 \<rparr>"

definition payload_a :: json where
  "payload_a = JObj [(''v'', JNum 2), (''eTag'', JStr ''oid1'')]"

definition payload_a_old :: json where
  "payload_a_old = JObj [(''v'', JNum 1), (''eTag'', JStr ''oid0'')]"

definition payload_b :: json where
  "payload_b = JObj [(''eTag'', JStr ''oid2'')]"

definition known_payloads :: "json list" where
  "known_payloads = [payload_a, payload_a_old, payload_b]"

definition tiered_world :: world where
  "tiered_world = empty_world
     \<lparr> documents :=
         [''a'' \<mapsto> \<lparr>state = sample_stringify payload_a_old, date = 0, etag = ''oid0''\<rparr>,
          ''b'' \<mapsto> \<lparr>state = sample_stringify payload_b, date = 0, etag = ''oid2''\<rparr>],
       cacheEntries := [''a'' \<mapsto> (sample_stringify payload_a, 100)] \<rparr>"



text \<open>
  A caller's heap: an object at address 0, an object with an \<open>eTag\<close> of the caller's at 1,
  an array at 2, and \<open>null\<close> everywhere else.
\<close>

definition sample_heap :: heap where
  "sample_heap =
     (\<lambda>a. JNull)
       (0 := JObj [(''v'', JNum 1)],
        1 := JObj [(''eTag'', JStr ''mine''), (''v'', JNum 1)],
        2 := JArr [JNum 1])"

definition proto_world :: world where
  "proto_world = empty_world
     \<lparr> documents :=
         [''__proto__'' \<mapsto> \<lparr>state = sample_stringify payload_b, date = 0, etag = ''oid2''\<rparr>],
       cacheEntries := [''__proto__'' \<mapsto> (sample_stringify payload_a, 100)] \<rparr>"



declare show_nat.simps [simp del]

lemmas sample_defs =
  MongoStore_new_def sample_uri_def plain_options_def cached_options_def trim_def
  is_space_def name_or_def DEFAULT_DATABASE_NAME_def DEFAULT_COLLECTION_NAME_def
  DEFAULT_DOCUMENT_KEY_def DEFAULT_CACHE_EXPIRATION_TIME_def empty_world_def

lemmas backend_defs =
  mongo_settle_def redis_settle_def sent_def mongo_find_def mongo_bulkWrite_def
  mongo_deleteMany_def mongo_ping_def redis_get_def redis_set_def redis_del_def
  redis_ping_def

section \<open>Reading leaves the cache alone\<close>

lemma start_all_cache_get_frame:
  "cacheEntries (snd (start_all (cache_get st t) w ks)) = cacheEntries w \<and>
   filter is_cache_write (calls (snd (start_all (cache_get st t) w ks))) =
     filter is_cache_write (calls w)"
proof (induction ks arbitrary: w)
  case Nil
  show ?case by simp
next
  case (Cons k ks)
  obtain p w1 where step: "cache_get st t w k = (p, w1)"
    by (cases "cache_get st t w k")
  then have w1: "cacheEntries w1 = cacheEntries w"
    "filter is_cache_write (calls w1) = filter is_cache_write (calls w)"
    by (auto simp: cache_get_def redis_get_def sent_def split: option.splits)
  obtain ps w2 where rest: "start_all (cache_get st t) w1 ks = (ps, w2)"
    by (cases "start_all (cache_get st t) w1 ks")
  from Cons.IH [of w1] rest w1 step show ?case by simp
qed

lemma snd_readRedis: "snd (readRedis rt st w t ks) = snd (start_all (cache_get st t) w ks)"
  by (simp add: readRedis_def split: prod.splits sum.splits)

lemma snd_readMongo: "snd (readMongo rt st w t ks) = sent (MongoFind ks) w"
  by (simp add: readMongo_def mongo_find_def mongo_settle_def split: prod.splits sum.splits)

lemma readRedis_frame:
  "cacheEntries (snd (readRedis rt st w t ks)) = cacheEntries w"
  "filter is_cache_write (calls (snd (readRedis rt st w t ks))) =
     filter is_cache_write (calls w)"
  by (simp_all add: snd_readRedis start_all_cache_get_frame)

lemma readMongo_frame:
  "cacheEntries (snd (readMongo rt st w t ks)) = cacheEntries w"
  "filter is_cache_write (calls (snd (readMongo rt st w t ks))) =
     filter is_cache_write (calls w)"
  by (simp_all add: snd_readMongo sent_def)

text \<open>
  C9. For every store, world, time and key list, \<open>read\<close> leaves the cache as it was: the
  entries are the same afterwards, and the requests it has sent contain no \<open>SET\<close> and no
  \<open>DEL\<close>. A value fetched from the collection on a miss is not put into the cache.
\<close>

theorem read_leaves_cache:
  "cacheEntries (snd (read rt st w t stateKeys)) = cacheEntries w \<and>
   filter is_cache_write (calls (snd (read rt st w t stateKeys))) =
     filter is_cache_write (calls w)"
proof -
  have redis: "\<And>p w1. readRedis rt st w t stateKeys = (p, w1) \<Longrightarrow>
      cacheEntries w1 = cacheEntries w \<and>
      filter is_cache_write (calls w1) = filter is_cache_write (calls w)"
    using readRedis_frame [of rt st w t stateKeys] by simp
  have mongo: "\<And>p w0 t0 ks w1. readMongo rt st w0 t0 ks = (p, w1) \<Longrightarrow>
      cacheEntries w1 = cacheEntries w0 \<and>
      filter is_cache_write (calls w1) = filter is_cache_write (calls w0)"
  proof -
    fix p w0 t0 ks w1
    assume "readMongo rt st w0 t0 ks = (p, w1)"
    then show "cacheEntries w1 = cacheEntries w0 \<and>
        filter is_cache_write (calls w1) = filter is_cache_write (calls w0)"
      using readMongo_frame [of rt st w0 t0 ks] by simp
  qed
  show ?thesis
    by (auto simp: read_def split: prod.splits sum.splits dest!: redis mongo)
qed

section \<open>Deleting and probing without a cache\<close>

text \<open>
  C1. A store constructed without \<open>redis\<close> options, a collection that holds key \<open>a\<close>:
  \<open>delete(["a"])\<close> is rejected with a TypeError, because \<open>deleteRedis\<close> is called whether
  or not the cache is enabled and reads \<open>del\<close> from the client that was never created.
  The request to the collection has been sent all the same, and the document is gone.
\<close>

theorem delete_without_cache_rejects:
  "map_sum id
     (\<lambda>st. case delete st
               (empty_world\<lparr>documents := [''a'' \<mapsto> \<lparr>state = ''{}'', date = 0, etag = ''x''\<rparr>]\<rparr>)
               0 [''a''] of
             (p, w) \<Rightarrow> (isCacheEnabled st, p, documents w ''a'', calls w))
     (MongoStore_new sample_uri plain_options) =
   Inr (False, (0, Inl TypeError), None, [MongoDeleteMany [''a''] W0])"
  by (simp add: sample_defs backend_defs delete_def deleteRedis_def deleteMongo_def
      cache_del_def Promise_all_def writeConcern_def)

text \<open>
  C2. A store constructed with \<open>redis\<close> options, a collection server that rejects the
  ping: \<open>health()\<close> is rejected with the server's error instead of returning a result
  whose \<open>mongo\<close> is \<open>0\<close>.
\<close>

theorem health_rejects_when_ping_rejects:
  "map_sum id
     (\<lambda>st. (isCacheEnabled st, fst (health st (empty_world\<lparr>mongoFails := True\<rparr>) 0)))
     (MongoStore_new sample_uri cached_options) =
   Inr (True, (1, Inl MongoError))"
  by (simp add: sample_defs backend_defs health_def rClient_ping_def health_ok_def)

text \<open>
  C3. A store constructed without \<open>redis\<close> options, both servers well: \<open>health()\<close>
  reaches \<open>this.rClient.ping()\<close>, which stands before the test of \<open>isCacheEnabled\<close>, and
  is rejected with the TypeError of calling a method of the client that was never
  created.
\<close>

theorem health_probes_cache_when_disabled:
  "map_sum id
     (\<lambda>st. (isCacheEnabled st, rClient st, rClient_ping st empty_world 0,
            fst (health st empty_world 0)))
     (MongoStore_new sample_uri plain_options) =
   Inr (False, None, Inl TypeError, (1, Inl TypeError))"
  by (simp add: sample_defs backend_defs health_def rClient_ping_def health_ok_def)

section \<open>The write concern\<close>

lemma concerns_of_append: "concerns_of (xs @ ys) = concerns_of xs @ concerns_of ys"
  by (induction xs rule: concerns_of.induct) auto

lemma start_all_concerns:
  assumes f: "\<And>w x. concerns_of (calls (snd (f w x))) = concerns_of (calls w)"
  shows "concerns_of (calls (snd (start_all f w xs))) = concerns_of (calls w)"
proof (induction xs arbitrary: w)
  case Nil
  show ?case by simp
next
  case (Cons x xs)
  obtain p w1 where step: "f w x = (p, w1)" by (cases "f w x")
  obtain ps w2 where rest: "start_all f w1 xs = (ps, w2)" by (cases "start_all f w1 xs")
  from f [of w x] step have "concerns_of (calls w1) = concerns_of (calls w)" by simp
  with Cons.IH [of w1] rest step show ?case by simp
qed

lemma cache_set_concerns:
  "concerns_of (calls (snd (cache_set rt st t h w e))) = concerns_of (calls w)"
  by (simp add: cache_set_def redis_set_def sent_def concerns_of_append split: option.splits)

lemma cache_del_concerns:
  "concerns_of (calls (snd (cache_del st t w k))) = concerns_of (calls w)"
  by (simp add: cache_del_def redis_del_def sent_def concerns_of_append split: option.splits)

lemma writeRedis_concerns:
  "concerns_of (calls (snd (writeRedis rt st w t h changes))) = concerns_of (calls w)"
proof -
  have "snd (writeRedis rt st w t h changes) = snd (start_all (cache_set rt st t h) w changes)"
    by (simp add: writeRedis_def split: prod.splits)
  then show ?thesis
    using start_all_concerns [of "cache_set rt st t h" w changes, OF cache_set_concerns] by simp
qed

lemma deleteRedis_concerns:
  "concerns_of (calls (snd (deleteRedis st w t ks))) = concerns_of (calls w)"
proof -
  have "snd (deleteRedis st w t ks) = snd (start_all (cache_del st t) w ks)"
    by (simp add: deleteRedis_def split: prod.splits)
  then show ?thesis
    using start_all_concerns [of "cache_del st t" w ks, OF cache_del_concerns] by simp
qed

lemma writeMongo_concerns:
  "concerns_of (calls (snd (snd (writeMongo rt st w t h changes)))) =
   concerns_of (calls w) @
     (if fst (writeMongo_forEach rt t (objectIds w) h changes) = None then [writeConcern st] else [])"
  by (simp add: writeMongo_def mongo_bulkWrite_def sent_def concerns_of_append
      split: prod.splits option.splits)

lemma write_all_concerns:
  "concerns_of (calls (snd (snd (write_all rt st w t h changes)))) =
   concerns_of (calls w) @
     (if changes \<noteq> [] \<and> fst (writeMongo_forEach rt t (objectIds w) h changes) = None
      then [writeConcern st] else [])"
proof (cases "changes = []")
  case True
  then show ?thesis by (simp add: write_all_def)
next
  case False
  obtain p1 h1 w1 where m: "writeMongo rt st w t h changes = (p1, h1, w1)"
    by (cases "writeMongo rt st w t h changes")
  obtain p2 w2 where r: "writeRedis rt st w1 t h1 changes = (p2, w2)"
    by (cases "writeRedis rt st w1 t h1 changes")
  from writeMongo_concerns [of rt st w t h changes] m
  have c1: "concerns_of (calls w1) = concerns_of (calls w) @
     (if fst (writeMongo_forEach rt t (objectIds w) h changes) = None then [writeConcern st] else [])"
    by simp
  from writeRedis_concerns [of rt st w1 t h1 changes] r
  have c2: "concerns_of (calls w2) = concerns_of (calls w1)" by simp
  from False m r c1 c2 show ?thesis
    by (simp add: write_all_def split: prod.splits)
qed

lemma delete_concerns:
  "concerns_of (calls (snd (delete st w t ks))) =
   concerns_of (calls w) @ (if ks = [] then [] else [writeConcern st])"
proof (cases "ks = []")
  case True
  then show ?thesis by (simp add: delete_def)
next
  case False
  obtain p1 w1 where r: "deleteRedis st w t ks = (p1, w1)"
    by (cases "deleteRedis st w t ks")
  from deleteRedis_concerns [of st w t ks] r
  have c1: "concerns_of (calls w1) = concerns_of (calls w)" by simp
  from False r c1 show ?thesis
    by (simp add: delete_def deleteMongo_def mongo_deleteMany_def sent_def concerns_of_append
        split: prod.splits)
qed

text \<open>
  C8. The write concern sent with a batched write and with a delete is chosen by the
  flag alone, the fast one by default: for a store constructed from \<open>opts\<close> it is
  \<open>w: 0\<close> when \<open>disableWriteConcern\<close> is not given or false and \<open>w: 'majority'\<close> when it is
  true; \<open>write\<close> sends one \<open>bulkWrite\<close> with it (when there are changes and the stamping
  loop has not thrown) and \<open>delete\<close> one \<open>deleteMany\<close> with it (when there are keys), and
  nothing else that carries a write concern.
\<close>

theorem write_concern_polarity:
  assumes "MongoStore_new u opts = Inr st"
  shows "writeConcern st = (if disableWriteConcern_opt opts = Some True then WMajority else W0) \<and>
    concerns_of (calls (snd (snd (write_all rt st w t h changes)))) =
      concerns_of (calls w) @
        (if changes \<noteq> [] \<and> fst (writeMongo_forEach rt t (objectIds w) h changes) = None
         then [writeConcern st] else []) \<and>
    concerns_of (calls (snd (delete st w t ks))) =
      concerns_of (calls w) @ (if ks = [] then [] else [writeConcern st])"
proof -
  from assms have "disableWriteConcern st = (disableWriteConcern_opt opts = Some True)"
    by (auto simp: MongoStore_new_def split: if_splits option.splits)
  then have "writeConcern st = (if disableWriteConcern_opt opts = Some True then WMajority else W0)"
    by (simp add: writeConcern_def)
  then show ?thesis
    using write_all_concerns [of rt st w t h changes] delete_concerns [of st w t ks] by simp
qed

text \<open>
  An instance: with \<open>disableWriteConcern: true\<close> a write and a delete each send
  \<open>w: 'majority'\<close>.
\<close>

theorem write_concern_polarity_witness:
  "\<exists>st. MongoStore_new sample_uri safe_options = Inr st \<and>
     writeConcern st = WMajority \<and>
     concerns_of (calls (snd (snd (write_all (sample_runtime []) st empty_world 0 sample_heap [(''a'', 0)])))) = [WMajority] \<and>
     concerns_of (calls (snd (delete st empty_world 0 [''a'']))) = [WMajority]"
proof -
  obtain st where st: "MongoStore_new sample_uri safe_options = Inr st"
    by (simp add: sample_defs safe_options_def)
  from write_concern_polarity [OF st, of "sample_runtime []" empty_world 0 sample_heap
      "[(''a'', 0)]" "[''a'']"]
  show ?thesis using st
    by (simp add: safe_options_def plain_options_def empty_world_def sample_heap_def)
qed

section \<open>The cache-aside read\<close>

lemma start_all_cache_get:
  assumes "rClient st = Some client"
  shows "start_all (cache_get st t) w ks =
    (map (\<lambda>k. redis_settle w t (cache_lookup w t k)) ks, w\<lparr>calls := calls w @ map RedisGet ks\<rparr>)"
proof (induction ks arbitrary: w)
  case Nil
  show ?case by simp
next
  case (Cons k ks)
  have "cache_get st t w k =
      (redis_settle w t (cache_lookup w t k), w\<lparr>calls := calls w @ [RedisGet k]\<rparr>)"
    using assms by (simp add: cache_get_def redis_get_def sent_def)
  moreover have "\<And>j. redis_settle (w\<lparr>calls := calls w @ [RedisGet k]\<rparr>) t
        (cache_lookup (w\<lparr>calls := calls w @ [RedisGet k]\<rparr>) t j) =
      redis_settle w t (cache_lookup w t j)"
    by (simp add: redis_settle_def cache_lookup_def)
  ultimately show ?case
    by (simp add: Cons.IH)
qed

lemma earliest_rejection_fulfilled:
  "earliest_rejection (map (\<lambda>x. (tp, Inr (f x))) xs) = None"
  by (induction xs) auto

lemma fulfilled_values_fulfilled:
  "fulfilled_values (map (\<lambda>x. (tp, Inr (f x))) xs) = map f xs"
  by (induction xs) auto

lemma fold_max_same:
  "fold max (map fst (map (\<lambda>x. (tp, g x)) xs)) (t::nat) = (if xs = [] then t else max t tp)"
  by (induction xs arbitrary: t) (auto simp: max_def)

lemma Promise_all_fulfilled:
  "Promise_all t (map (\<lambda>x. (tp, Inr (f x))) xs) =
     ((if xs = [] then t else max t tp), Inr (map f xs))"
  by (simp add: Promise_all_def earliest_rejection_fulfilled fulfilled_values_fulfilled
      fold_max_same del: map_map)

lemma js_set_plain:
  "k \<noteq> ''__proto__'' \<Longrightarrow> js_set obj k v = obj\<lparr>own := AList.update k v (own obj)\<rparr>"
  by (simp add: js_set_def)

lemma readRedis_reduce_ok:
  assumes "\<forall>k\<in>set ks. \<forall>s. look k = Some s \<longrightarrow> s \<noteq> [] \<and> JSON_parse rt s \<noteq> None"
    and "''__proto__'' \<notin> set ks"
  shows "\<exists>accum'. readRedis_reduce rt accum missing (map (\<lambda>k. (k, look k)) ks) =
            Inr (accum', missing @ filter (\<lambda>k. look k = None) ks) \<and>
          proto accum' = proto accum \<and>
          (distinct (map fst (own accum)) \<longrightarrow> distinct (map fst (own accum'))) \<and>
          (\<forall>k. map_of (own accum') k =
             (if k \<in> set ks \<and> look k \<noteq> None then JSON_parse rt (the (look k))
              else map_of (own accum) k))"
  using assms
proof (induction ks arbitrary: accum missing)
  case Nil
  show ?case by simp
next
  case (Cons k ks)
  then have rest: "\<forall>k\<in>set ks. \<forall>s. look k = Some s \<longrightarrow> s \<noteq> [] \<and> JSON_parse rt s \<noteq> None"
    and np: "''__proto__'' \<notin> set ks" and k: "k \<noteq> ''__proto__''"
    by auto
  show ?case
  proof (cases "look k")
    case None
    from Cons.IH [OF rest np, of accum "missing @ [k]"] None show ?thesis by auto
  next
    case (Some s)
    with Cons.prems obtain j where j: "s \<noteq> []" "JSON_parse rt s = Some j" by auto
    let ?a = "accum\<lparr>own := AList.update k j (own accum)\<rparr>"
    from Cons.IH [OF rest np, of ?a missing]
    obtain accum' where a:
      "readRedis_reduce rt ?a missing (map (\<lambda>k. (k, look k)) ks) =
            Inr (accum', missing @ filter (\<lambda>k. look k = None) ks)"
      "proto accum' = proto ?a"
      "distinct (map fst (own ?a)) \<longrightarrow> distinct (map fst (own accum'))"
      "\<forall>k'. map_of (own accum') k' =
             (if k' \<in> set ks \<and> look k' \<noteq> None then JSON_parse rt (the (look k'))
              else map_of (own ?a) k')" by blast
    from a Some j k show ?thesis
      by (auto simp: update_conv' distinct_update js_set_plain)
  qed
qed

lemma readMongo_reduce_ok:
  assumes "\<forall>k\<in>set ks. \<forall>d. docs k = Some d \<longrightarrow> JSON_parse rt (state d) \<noteq> None"
    and "''__proto__'' \<notin> set ks"
  shows "\<exists>accum'. readMongo_reduce rt accum
              (List.map_filter (\<lambda>k. map_option (Pair k) (docs k)) ks) = Inr accum' \<and>
          proto accum' = proto accum \<and>
          (distinct (map fst (own accum)) \<longrightarrow> distinct (map fst (own accum'))) \<and>
          (\<forall>k. map_of (own accum') k =
             (if k \<in> set ks \<and> docs k \<noteq> None then JSON_parse rt (state (the (docs k)))
              else map_of (own accum) k))"
  using assms
proof (induction ks arbitrary: accum)
  case Nil
  show ?case by (simp add: List.map_filter_simps)
next
  case (Cons k ks)
  then have rest: "\<forall>k\<in>set ks. \<forall>d. docs k = Some d \<longrightarrow> JSON_parse rt (state d) \<noteq> None"
    and np: "''__proto__'' \<notin> set ks" and k: "k \<noteq> ''__proto__''"
    by auto
  show ?case
  proof (cases "docs k")
    case None
    from Cons.IH [OF rest np, of accum] None show ?thesis
      by (auto simp: List.map_filter_simps)
  next
    case (Some d)
    with Cons.prems obtain j where j: "JSON_parse rt (state d) = Some j" by auto
    let ?a = "accum\<lparr>own := AList.update k j (own accum)\<rparr>"
    from Cons.IH [OF rest np, of ?a]
    obtain accum' where a:
      "readMongo_reduce rt ?a (List.map_filter (\<lambda>k. map_option (Pair k) (docs k)) ks) =
            Inr accum'"
      "proto accum' = proto ?a"
      "distinct (map fst (own ?a)) \<longrightarrow> distinct (map fst (own accum'))"
      "\<forall>k'. map_of (own accum') k' =
             (if k' \<in> set ks \<and> docs k' \<noteq> None then JSON_parse rt (state (the (docs k')))
              else map_of (own ?a) k')" by blast
    from a Some j k show ?thesis
      by (auto simp: update_conv' distinct_update List.map_filter_simps js_set_plain)
  qed
qed

lemma readRedis_reduce_empty:
  assumes "\<forall>k\<in>set ks. \<forall>s. look k = Some s \<longrightarrow> s \<noteq> [] \<and> JSON_parse rt s \<noteq> None"
    and "''__proto__'' \<notin> set ks"
  shows "\<exists>cached. readRedis_reduce rt empty_object [] (map (\<lambda>k. (k, look k)) ks) =
            Inr (cached, filter (\<lambda>k. look k = None) ks) \<and>
          proto cached = ObjectPrototype \<and>
          distinct (map fst (own cached)) \<and>
          (\<forall>k. map_of (own cached) k =
             (if k \<in> set ks \<and> look k \<noteq> None then JSON_parse rt (the (look k)) else None))"
proof -
  from readRedis_reduce_ok [OF assms, of empty_object "[]"]
  obtain cached where
    "readRedis_reduce rt empty_object [] (map (\<lambda>k. (k, look k)) ks) =
       Inr (cached, [] @ filter (\<lambda>k. look k = None) ks)"
    "proto cached = proto empty_object"
    "distinct (map fst (own empty_object)) \<longrightarrow> distinct (map fst (own cached))"
    "\<forall>k. map_of (own cached) k =
       (if k \<in> set ks \<and> look k \<noteq> None then JSON_parse rt (the (look k))
        else map_of (own empty_object) k)"
    by blast
  then show ?thesis by (intro exI [of _ cached]) (auto simp: empty_object_def)
qed

lemma readMongo_reduce_empty:
  assumes "\<forall>k\<in>set ks. \<forall>d. docs k = Some d \<longrightarrow> JSON_parse rt (state d) \<noteq> None"
    and "''__proto__'' \<notin> set ks"
  shows "\<exists>found. readMongo_reduce rt empty_object
              (List.map_filter (\<lambda>k. map_option (Pair k) (docs k)) ks) = Inr found \<and>
          proto found = ObjectPrototype \<and>
          distinct (map fst (own found)) \<and>
          (\<forall>k. map_of (own found) k =
             (if k \<in> set ks \<and> docs k \<noteq> None then JSON_parse rt (state (the (docs k)))
              else None))"
proof -
  from readMongo_reduce_ok [OF assms, of empty_object]
  obtain found where
    "readMongo_reduce rt empty_object
       (List.map_filter (\<lambda>k. map_option (Pair k) (docs k)) ks) = Inr found"
    "proto found = proto empty_object"
    "distinct (map fst (own empty_object)) \<longrightarrow> distinct (map fst (own found))"
    "\<forall>k. map_of (own found) k =
       (if k \<in> set ks \<and> docs k \<noteq> None then JSON_parse rt (state (the (docs k)))
        else map_of (own empty_object) k)"
    by blast
  then show ?thesis by (intro exI [of _ found]) (auto simp: empty_object_def)
qed

lemma fold_js_set:
  assumes "distinct (map fst xs)" and "''__proto__'' \<notin> set (map fst xs)"
  shows "proto (fold (\<lambda>(k, v) obj. js_set obj k v) xs target) = proto target \<and>
    map_of (own (fold (\<lambda>(k, v) obj. js_set obj k v) xs target)) k =
      (case map_of xs k of Some v \<Rightarrow> Some v | None \<Rightarrow> map_of (own target) k)"
  using assms
proof (induction xs arbitrary: target)
  case Nil
  show ?case by simp
next
  case (Cons e xs)
  obtain a b where e: "e = (a, b)" by (cases e)
  from Cons.prems e have d: "a \<notin> fst ` set xs" "distinct (map fst xs)"
    and np: "''__proto__'' \<notin> set (map fst xs)" and a: "a \<noteq> ''__proto__''"
    by auto
  from d have none: "map_of xs a = None" by (simp add: map_of_eq_None_iff)
  from Cons.IH [OF d(2) np, of "target\<lparr>own := AList.update a b (own target)\<rparr>"] e a none
  show ?case by (auto simp: update_conv' js_set_plain split: option.splits)
qed

lemma Object_assign_plain:
  assumes "distinct (map fst (own source))" and "''__proto__'' \<notin> set (map fst (own source))"
  shows "proto (Object_assign target source) = proto target"
    and "map_of (own (Object_assign target source)) k =
      (case map_of (own source) k of Some v \<Rightarrow> Some v | None \<Rightarrow> map_of (own target) k)"
  using fold_js_set [OF assms, of target k] by (simp_all add: Object_assign_def)

lemma no_proto_key:
  assumes "\<forall>k. map_of xs k = (if k \<in> set ks \<and> P k then f k else None)"
    and "''__proto__'' \<notin> set ks"
  shows "''__proto__'' \<notin> set (map fst xs)"
proof -
  from assms have "map_of xs ''__proto__'' = None" by simp
  then show ?thesis by (simp add: map_of_eq_None_iff)
qed

lemma readRedis_ok:
  assumes cl: "rClient st = Some client" and up: "\<not> redisFails w"
    and held: "\<forall>k\<in>set ks. \<forall>s. cache_lookup w t k = Some s \<longrightarrow>
                 s \<noteq> [] \<and> JSON_parse rt s \<noteq> None"
    and ne: "ks \<noteq> []" and np: "''__proto__'' \<notin> set ks"
  shows "\<exists>cached. readRedis rt st w t ks =
      ((t + redisLatency w, Inr (cached, cache_misses w t ks)),
       w\<lparr>calls := calls w @ map RedisGet ks\<rparr>) \<and>
      proto cached = ObjectPrototype \<and>
      distinct (map fst (own cached)) \<and>
      ''__proto__'' \<notin> set (map fst (own cached)) \<and>
      (\<forall>k. map_of (own cached) k =
         (if k \<in> set ks \<and> cache_lookup w t k \<noteq> None
          then JSON_parse rt (the (cache_lookup w t k)) else None))"
proof -
  from readRedis_reduce_empty [OF held np]
  obtain cached where c:
    "readRedis_reduce rt empty_object [] (map (\<lambda>k. (k, cache_lookup w t k)) ks) =
      Inr (cached, filter (\<lambda>k. cache_lookup w t k = None) ks)"
    "proto cached = ObjectPrototype"
    "distinct (map fst (own cached))"
    "\<forall>k. map_of (own cached) k =
         (if k \<in> set ks \<and> cache_lookup w t k \<noteq> None
          then JSON_parse rt (the (cache_lookup w t k)) else None)"
    by blast
  have settle: "(\<lambda>k. redis_settle w t (cache_lookup w t k)) =
      (\<lambda>k. (t + redisLatency w, Inr (cache_lookup w t k)))"
    using up by (simp add: redis_settle_def)
  have z: "zip ks (map (cache_lookup w t) ks) = map (\<lambda>k. (k, cache_lookup w t k)) ks"
    by (induction ks) auto
  have "readRedis rt st w t ks =
      ((t + redisLatency w, Inr (cached, cache_misses w t ks)),
       w\<lparr>calls := calls w @ map RedisGet ks\<rparr>)"
    using ne c(1)
    by (simp add: readRedis_def start_all_cache_get [OF cl] settle Promise_all_fulfilled z
        cache_misses_def)
  moreover have "''__proto__'' \<notin> set (map fst (own cached))"
    by (rule no_proto_key [OF c(4) np])
  ultimately show ?thesis using c by blast
qed

lemma readMongo_ok:
  assumes up: "\<not> mongoFails w"
    and docs: "\<forall>k\<in>set ks. \<forall>d. documents w k = Some d \<longrightarrow> JSON_parse rt (state d) \<noteq> None"
    and np: "''__proto__'' \<notin> set ks"
  shows "\<exists>found. readMongo rt st w t ks =
      ((t + mongoLatency w, Inr found), w\<lparr>calls := calls w @ [MongoFind ks]\<rparr>) \<and>
      proto found = ObjectPrototype \<and>
      distinct (map fst (own found)) \<and>
      ''__proto__'' \<notin> set (map fst (own found)) \<and>
      (\<forall>k. map_of (own found) k =
         (if k \<in> set ks \<and> documents w k \<noteq> None
          then JSON_parse rt (state (the (documents w k))) else None))"
proof -
  from docs have d: "\<forall>k\<in>set (remdups ks). \<forall>d. documents w k = Some d \<longrightarrow>
      JSON_parse rt (state d) \<noteq> None"
    by simp
  from np have n: "''__proto__'' \<notin> set (remdups ks)" by simp
  from readMongo_reduce_empty [OF d n]
  obtain found where f: "readMongo_reduce rt empty_object
        (List.map_filter (\<lambda>k. map_option (Pair k) (documents w k)) (remdups ks)) = Inr found"
    "proto found = ObjectPrototype"
    "distinct (map fst (own found))"
    "\<forall>k. map_of (own found) k =
         (if k \<in> set (remdups ks) \<and> documents w k \<noteq> None
          then JSON_parse rt (state (the (documents w k))) else None)"
    by blast
  have "readMongo rt st w t ks =
      ((t + mongoLatency w, Inr found), w\<lparr>calls := calls w @ [MongoFind ks]\<rparr>)"
    using up f(1) by (simp add: readMongo_def mongo_find_def mongo_settle_def sent_def)
  moreover have "''__proto__'' \<notin> set (map fst (own found))"
    by (rule no_proto_key [OF f(4) n])
  ultimately show ?thesis using f by auto
qed

lemma read_enabled:
  assumes en: "isCacheEnabled st" and cl: "rClient st = Some client" and ne: "stateKeys \<noteq> []"
    and np: "''__proto__'' \<notin> set stateKeys"
    and up: "\<not> redisFails w"
    and mup: "cache_misses w t stateKeys = [] \<or> \<not> mongoFails w"
    and held: "\<forall>k\<in>set stateKeys. \<forall>s. cache_lookup w t k = Some s \<longrightarrow>
                 s \<noteq> [] \<and> JSON_parse rt s \<noteq> None"
    and docs: "\<forall>k\<in>set (cache_misses w t stateKeys). \<forall>d. documents w k = Some d \<longrightarrow>
                 JSON_parse rt (state d) \<noteq> None"
  shows "\<exists>states. read rt st w t stateKeys =
      ((t + redisLatency w + (if cache_misses w t stateKeys = [] then 0 else mongoLatency w),
        Inr states),
       w\<lparr>calls := calls w @ map RedisGet stateKeys @
           (if cache_misses w t stateKeys = [] then []
            else [MongoFind (cache_misses w t stateKeys)])\<rparr>) \<and>
      proto states = ObjectPrototype \<and>
      (\<forall>k. map_of (own states) k =
         (if k \<in> set stateKeys then
            (case cache_lookup w t k of
               Some s \<Rightarrow> JSON_parse rt s
             | None \<Rightarrow>
                 (case documents w k of Some d \<Rightarrow> JSON_parse rt (state d) | None \<Rightarrow> None))
          else None))"
proof -
  let ?w1 = "w\<lparr>calls := calls w @ map RedisGet stateKeys\<rparr>"
  let ?m = "cache_misses w t stateKeys"
  from readRedis_ok [OF cl up held ne np]
  obtain cached where c:
    "readRedis rt st w t stateKeys = ((t + redisLatency w, Inr (cached, ?m)), ?w1)"
    "proto cached = ObjectPrototype"
    "distinct (map fst (own cached))"
    "''__proto__'' \<notin> set (map fst (own cached))"
    "\<forall>k. map_of (own cached) k =
         (if k \<in> set stateKeys \<and> cache_lookup w t k \<noteq> None
          then JSON_parse rt (the (cache_lookup w t k)) else None)"
    by blast
  have m_set: "\<And>k. k \<in> set ?m \<longleftrightarrow> k \<in> set stateKeys \<and> cache_lookup w t k = None"
    by (auto simp: cache_misses_def)
  let ?s1 = "Object_assign empty_object cached"
  have s1: "proto ?s1 = ObjectPrototype"
    "\<And>k. map_of (own ?s1) k = map_of (own cached) k"
    using Object_assign_plain [OF c(3,4), of empty_object]
    by (simp_all add: empty_object_def split: option.splits)
  show ?thesis
  proof (cases "?m = []")
    case True
    then have r: "read rt st w t stateKeys = ((t + redisLatency w, Inr ?s1), ?w1)"
      using en ne c(1) by (simp add: read_def)
    have "\<forall>k\<in>set stateKeys. cache_lookup w t k \<noteq> None"
      using True m_set by (metis empty_iff empty_set)
    then have "\<forall>k. map_of (own ?s1) k =
         (if k \<in> set stateKeys then
            (case cache_lookup w t k of
               Some s \<Rightarrow> JSON_parse rt s
             | None \<Rightarrow>
                 (case documents w k of Some d \<Rightarrow> JSON_parse rt (state d) | None \<Rightarrow> None))
          else None)"
      using c(5) by (auto simp: s1(2) split: option.splits)
    with r True s1(1) show ?thesis by auto
  next
    case False
    with mup have mongo_up: "\<not> mongoFails ?w1" by simp
    have docs1: "\<forall>k\<in>set ?m. \<forall>d. documents ?w1 k = Some d \<longrightarrow>
        JSON_parse rt (state d) \<noteq> None"
      using docs by simp
    have npm: "''__proto__'' \<notin> set ?m" using np by (simp add: cache_misses_def)
    from readMongo_ok [OF mongo_up docs1 npm, of st "t + redisLatency w"]
    obtain found where f: "readMongo rt st ?w1 (t + redisLatency w) ?m =
        ((t + redisLatency w + mongoLatency ?w1, Inr found),
         ?w1\<lparr>calls := calls ?w1 @ [MongoFind ?m]\<rparr>)"
      "proto found = ObjectPrototype"
      "distinct (map fst (own found))"
      "''__proto__'' \<notin> set (map fst (own found))"
      "\<forall>k. map_of (own found) k =
         (if k \<in> set ?m \<and> documents ?w1 k \<noteq> None
          then JSON_parse rt (state (the (documents ?w1 k))) else None)"
      by blast
    let ?s2 = "Object_assign ?s1 found"
    have s2: "proto ?s2 = ObjectPrototype"
      "\<And>k. map_of (own ?s2) k =
        (case map_of (own found) k of Some v \<Rightarrow> Some v | None \<Rightarrow> map_of (own cached) k)"
      using Object_assign_plain [OF f(3,4), of ?s1] s1 by (simp_all split: option.splits)
    have r: "read rt st w t stateKeys =
        ((t + redisLatency w + mongoLatency w, Inr ?s2),
         w\<lparr>calls := calls w @ map RedisGet stateKeys @ [MongoFind ?m]\<rparr>)"
      using en ne c(1) f(1) False by (simp add: read_def)
    have "\<forall>k. map_of (own ?s2) k =
         (if k \<in> set stateKeys then
            (case cache_lookup w t k of
               Some s \<Rightarrow> JSON_parse rt s
             | None \<Rightarrow>
                 (case documents w k of Some d \<Rightarrow> JSON_parse rt (state d) | None \<Rightarrow> None))
          else None)"
      using c(5) f(5) m_set
      by (auto simp: s2(2) split: option.splits)
    with r False s2(1) show ?thesis by auto
  qed
qed

text \<open>
  C4, as the code has it. Caching enabled, a key list that is not empty and does not hold
  the key \<open>__proto__\<close>, a cache that answers and holds only texts that are not empty and
  parse, and a collection that answers when asked and whose documents for the missed keys
  parse. Then \<open>read\<close> sends one \<open>GET\<close> for every requested key, in order; the keys the cache
  reports absent (\<open>cache_misses\<close>) are exactly what it then asks the collection for, in one
  \<open>find\<close>, and only when there is such a key; nothing else is sent and nothing else in the
  world changes. The object returned is an ordinary one and has, for a requested key, the
  parsed cache text when the cache has one (also when the collection has a document for
  the key), otherwise the parsed document when the collection has one, and no property
  otherwise; it is never an error.
\<close>

theorem read_cache_aside:
  assumes en: "isCacheEnabled st" and cl: "rClient st = Some client" and ne: "stateKeys \<noteq> []"
    and np: "''__proto__'' \<notin> set stateKeys"
    and up: "\<not> redisFails w"
    and mup: "cache_misses w t stateKeys = [] \<or> \<not> mongoFails w"
    and held: "\<forall>k\<in>set stateKeys. \<forall>s. cache_lookup w t k = Some s \<longrightarrow>
                 s \<noteq> [] \<and> JSON_parse rt s \<noteq> None"
    and docs: "\<forall>k\<in>set (cache_misses w t stateKeys). \<forall>d. documents w k = Some d \<longrightarrow>
                 JSON_parse rt (state d) \<noteq> None"
  shows "\<exists>states. read rt st w t stateKeys =
      ((t + redisLatency w + (if cache_misses w t stateKeys = [] then 0 else mongoLatency w),
        Inr states),
       w\<lparr>calls := calls w @ map RedisGet stateKeys @
           (if cache_misses w t stateKeys = [] then []
            else [MongoFind (cache_misses w t stateKeys)])\<rparr>) \<and>
      proto states = ObjectPrototype \<and>
      (\<forall>k. map_of (own states) k =
         (if k \<in> set stateKeys then
            (case cache_lookup w t k of
               Some s \<Rightarrow> JSON_parse rt s
             | None \<Rightarrow>
                 (case documents w k of Some d \<Rightarrow> JSON_parse rt (state d) | None \<Rightarrow> None))
          else None))"
  by (rule read_enabled [OF en cl ne np up mup held docs])

lemmas payload_defs = payload_a_def payload_a_old_def payload_b_def known_payloads_def
  sample_runtime_def quoted_def show_nat.simps

text \<open>
  An instance: \<open>read(["a", "b", "c"])\<close> on a cache that holds \<open>a\<close> and a collection that holds
  an older \<open>a\<close> and \<open>b\<close>. Three \<open>GET\<close>s, one \<open>find\<close> for \<open>b\<close> and \<open>c\<close>; \<open>a\<close> comes from the
  cache, \<open>b\<close> from the collection, \<open>c\<close> is absent.
\<close>

theorem read_cache_aside_witness:
  "\<exists>st states w'. MongoStore_new sample_uri cached_options = Inr st \<and>
     read (sample_runtime known_payloads) st tiered_world 0 [''a'', ''b'', ''c''] =
       ((2, Inr states), w') \<and>
     calls w' = [RedisGet ''a'', RedisGet ''b'', RedisGet ''c'', MongoFind [''b'', ''c'']] \<and>
     proto states = ObjectPrototype \<and>
     map_of (own states) ''a'' = Some payload_a \<and>
     map_of (own states) ''b'' = Some payload_b \<and>
     map_of (own states) ''c'' = None"
proof -
  let ?rt = "sample_runtime known_payloads"
  let ?ks = "[''a'', ''b'', ''c'']"
  obtain st where st: "MongoStore_new sample_uri cached_options = Inr st"
    and en: "isCacheEnabled st" and cl: "rClient st = Some ''redis://localhost:6379''"
    by (simp add: sample_defs)
  have look: "cache_lookup tiered_world 0 ''a'' = Some (sample_stringify payload_a)"
    "cache_lookup tiered_world 0 ''b'' = None" "cache_lookup tiered_world 0 ''c'' = None"
    by (simp_all add: cache_lookup_def tiered_world_def empty_world_def)
  have misses: "cache_misses tiered_world 0 ?ks = [''b'', ''c'']"
    by (simp add: cache_misses_def look)
  have docs: "documents tiered_world ''b'' =
      Some \<lparr>state = sample_stringify payload_b, date = 0, etag = ''oid2''\<rparr>"
    "documents tiered_world ''c'' = None"
    by (simp_all add: tiered_world_def empty_world_def)
  have parse: "JSON_parse ?rt (sample_stringify payload_a) = Some payload_a"
    "JSON_parse ?rt (sample_stringify payload_b) = Some payload_b"
    by (simp_all add: payload_defs)
  have ne: "sample_stringify payload_a \<noteq> []" by (simp add: payload_defs)
  have np: "''__proto__'' \<notin> set ?ks" by simp
  have h1: "\<not> redisFails tiered_world"
    "cache_misses tiered_world 0 ?ks = [] \<or> \<not> mongoFails tiered_world"
    by (simp_all add: tiered_world_def empty_world_def)
  have h2: "\<forall>k\<in>set ?ks. \<forall>s. cache_lookup tiered_world 0 k = Some s \<longrightarrow>
                 s \<noteq> [] \<and> JSON_parse ?rt s \<noteq> None"
    using look parse ne by simp
  have h3: "\<forall>k\<in>set (cache_misses tiered_world 0 ?ks). \<forall>d.
      documents tiered_world k = Some d \<longrightarrow> JSON_parse ?rt (state d) \<noteq> None"
    using misses docs parse by auto
  from read_cache_aside [OF en cl _ np h1 h2 h3]
  obtain states where r: "read ?rt st tiered_world 0 ?ks =
      ((0 + redisLatency tiered_world +
          (if cache_misses tiered_world 0 ?ks = [] then 0 else mongoLatency tiered_world),
        Inr states),
       tiered_world\<lparr>calls := calls tiered_world @ map RedisGet ?ks @
           (if cache_misses tiered_world 0 ?ks = [] then []
            else [MongoFind (cache_misses tiered_world 0 ?ks)])\<rparr>)"
    and p: "proto states = ObjectPrototype"
    and m: "\<forall>k. map_of (own states) k =
         (if k \<in> set ?ks then
            (case cache_lookup tiered_world 0 k of
               Some s \<Rightarrow> JSON_parse ?rt s
             | None \<Rightarrow>
                 (case documents tiered_world k of
                    Some d \<Rightarrow> JSON_parse ?rt (state d) | None \<Rightarrow> None))
          else None)"
    by blast
  have lat: "redisLatency tiered_world = 1" "mongoLatency tiered_world = 1"
    "calls tiered_world = []"
    by (simp_all add: tiered_world_def empty_world_def)
  from m have "map_of (own states) ''a'' = Some payload_a"
    "map_of (own states) ''b'' = Some payload_b" "map_of (own states) ''c'' = None"
    by (simp_all add: look docs parse)
  with st r p misses lat show ?thesis by simp
qed

text \<open>
  C4, as stated, fails for the key \<open>__proto__\<close>: the cache holds a value for it, and
  \<open>read(["__proto__"])\<close> returns an object with no property. The assignment
  \<open>accum['__proto__'] = JSON.parse(value)\<close> has made the parsed value the prototype of the
  accumulator instead of a property, and the key is not among the missing ones either:
  the collection is not asked.
\<close>

theorem read_drops_proto_key:
  "map_sum id
     (\<lambda>st. case read (sample_runtime known_payloads) st proto_world 0 [''__proto__''] of
             (p, w') \<Rightarrow> (isCacheEnabled st, cache_lookup proto_world 0 ''__proto__'', p, calls w'))
     (MongoStore_new sample_uri cached_options) =
   Inr (True, Some (sample_stringify payload_a),
        (1, Inr \<lparr>own = [], proto = ObjectPrototype\<rparr>), [RedisGet ''__proto__''])"
  by (simp add: sample_defs backend_defs proto_world_def read_def readRedis_def cache_get_def
      cache_lookup_def Promise_all_def Object_assign_def js_set_def empty_object_def
      payload_defs)

section \<open>Writing objects and arrays\<close>

















section \<open>A write of which one half fails\<close>

lemma fold_max_ge: "(t::nat) \<le> fold max xs t"
proof (induction xs arbitrary: t)
  case Nil
  show ?case by simp
next
  case (Cons x xs)
  have "t \<le> max x t" by simp
  also have "max x t \<le> fold max xs (max x t)" by (rule Cons.IH)
  finally show ?case by simp
qed

lemma Promise_all_ge: "t \<le> fst (Promise_all t ps)"
  by (simp add: Promise_all_def fold_max_ge split: option.splits)

lemma writeRedis_ge: "t \<le> fst (fst (writeRedis rt st w t h changes))"
proof -
  obtain ps w' where s: "start_all (cache_set rt st t h) w changes = (ps, w')"
    by (cases "start_all (cache_set rt st t h) w changes")
  obtain t' r where p: "Promise_all t ps = (t', r)" by (cases "Promise_all t ps")
  from Promise_all_ge [of t ps] p have "t \<le> t'" by simp
  with s p show ?thesis by (simp add: writeRedis_def)
qed

lemma writeMongo_ge: "t \<le> fst (fst (writeMongo rt st w t h changes))"
proof -
  obtain err h' ops n where f:
    "writeMongo_forEach rt t (objectIds w) h changes = (err, h', ops, n)"
    by (cases "writeMongo_forEach rt t (objectIds w) h changes")
  show ?thesis
    by (cases err) (simp_all add: writeMongo_def f mongo_bulkWrite_def mongo_settle_def sent_def)
qed

lemma Promise_all_pair:
  assumes "t \<le> t1" and "t \<le> t2" and "isl r1 \<noteq> isl r2"
  shows "Promise_all t [(t1, r1), (t2, r2)] =
    (if isl r1 then (t1, Inl (projl r1)) else (t2, Inl (projl r2)))"
  using assms by (cases r1; cases r2) (simp_all add: Promise_all_def max_def)

lemma write_all_single_failure:
  assumes en: "isCacheEnabled st" and ne: "changes \<noteq> []"
    and m: "writeMongo rt st w t h changes = (p1, h1, w1)"
    and r: "writeRedis rt st w1 t h1 changes = (p2, w2)"
    and one: "isl (snd p1) \<noteq> isl (snd p2)"
  shows "fst (write_all rt st w t h changes) =
    (if isl (snd p1) then (fst p1, Inl (projl (snd p1))) else (fst p2, Inl (projl (snd p2))))"
proof -
  from writeMongo_ge [of t rt st w h changes] m have t1: "t \<le> fst p1" by simp
  from writeRedis_ge [of t rt st w1 h1 changes] r have t2: "t \<le> fst p2" by simp
  have "Promise_all t [p1, p2] =
    (if isl (snd p1) then (fst p1, Inl (projl (snd p1))) else (fst p2, Inl (projl (snd p2))))"
    using Promise_all_pair [OF t1 t2 one] by simp
  with en ne m r show ?thesis by (simp add: write_all_def)
qed

text \<open>
  C6, as the code has it. Caching enabled and a \<open>changes\<close> that is not empty: \<open>write\<close> joins
  the promise of \<open>writeMongo(changes)\<close> and the promise of \<open>writeRedis(changes)\<close>, the second
  called on the heap and the world the first has left. When exactly one of the two is
  rejected, whatever the payloads are and whatever makes it fail (a server, or the
  assignment of the token throwing), \<open>write\<close> is rejected with the error of that one, at
  the time at which that one settles. The time does not depend on when the other promise
  settles: \<open>Promise.all\<close> rejects with the first rejection and does not wait for the
  promises that are still pending.
\<close>

theorem write_reports_single_failure:
  assumes "isCacheEnabled st" and "changes \<noteq> []"
    and "writeMongo rt st w t h changes = (p1, h1, w1)"
    and "writeRedis rt st w1 t h1 changes = (p2, w2)"
    and "isl (snd p1) \<noteq> isl (snd p2)"
  shows "fst (write_all rt st w t h changes) =
    (if isl (snd p1) then (fst p1, Inl (projl (snd p1))) else (fst p2, Inl (projl (snd p2))))"
  using assms by (rule write_all_single_failure)

lemma sample_writes:
  assumes "MongoStore_new sample_uri cached_options = Inr st"
  shows "isCacheEnabled st"
    and "fst (writeMongo (sample_runtime []) st (empty_world\<lparr>redisFails := True\<rparr>) 0
           sample_heap [(''a'', 0)]) = (1, Inr ())"
    and "fst (writeRedis (sample_runtime []) st
           (snd (snd (writeMongo (sample_runtime []) st (empty_world\<lparr>redisFails := True\<rparr>) 0
              sample_heap [(''a'', 0)]))) 0
           (fst (snd (writeMongo (sample_runtime []) st (empty_world\<lparr>redisFails := True\<rparr>) 0
              sample_heap [(''a'', 0)]))) [(''a'', 0)]) = (1, Inl RedisError)"
    and "fst (writeMongo (sample_runtime []) st empty_world 0 sample_heap [(''a'', 3)]) =
           (0, Inl TypeError)"
    and "fst (writeRedis (sample_runtime []) st
           (snd (snd (writeMongo (sample_runtime []) st empty_world 0 sample_heap [(''a'', 3)]))) 0
           (fst (snd (writeMongo (sample_runtime []) st empty_world 0 sample_heap [(''a'', 3)])))
           [(''a'', 3)]) = (1, Inr ())"
  using assms
  by (auto simp: sample_defs backend_defs writeMongo_def writeRedis_def cache_set_def
      Promise_all_def writeConcern_def sample_heap_def)

text \<open>
  Two instances. The cache server fails and the collection answers: the write is rejected
  with the cache's error at time 1. The payload is \<open>null\<close> and both servers are well: the
  write is rejected with the TypeError of \<open>writeMongo\<close> at time 0, although the \<open>SET\<close>
  succeeds at time 1.
\<close>

theorem write_reports_single_failure_witness:
  "\<exists>st. MongoStore_new sample_uri cached_options = Inr st \<and>
     fst (write_all (sample_runtime []) st (empty_world\<lparr>redisFails := True\<rparr>) 0 sample_heap
            [(''a'', 0)]) = (1, Inl RedisError) \<and>
     fst (write_all (sample_runtime []) st empty_world 0 sample_heap [(''a'', 3)]) =
       (0, Inl TypeError)"
proof -
  obtain st where st: "MongoStore_new sample_uri cached_options = Inr st"
    by (simp add: sample_defs)
  note s = sample_writes [OF st]
  let ?rt = "sample_runtime []"
  let ?w = "empty_world\<lparr>redisFails := True\<rparr>"
  let ?m = "writeMongo ?rt st ?w 0 sample_heap [(''a'', 0)]"
  let ?r = "writeRedis ?rt st (snd (snd ?m)) 0 (fst (snd ?m)) [(''a'', 0)]"
  let ?m' = "writeMongo ?rt st empty_world 0 sample_heap [(''a'', 3)]"
  let ?r' = "writeRedis ?rt st (snd (snd ?m')) 0 (fst (snd ?m')) [(''a'', 3)]"
  have m: "?m = (fst ?m, fst (snd ?m), snd (snd ?m))" by simp
  have r: "?r = (fst ?r, snd ?r)" by simp
  have one: "isl (snd (fst ?m)) \<noteq> isl (snd (fst ?r))" by (simp add: s)
  have ne: "[(''a'', 0::nat)] \<noteq> []" by simp
  have a: "fst (write_all ?rt st ?w 0 sample_heap [(''a'', 0)]) = (1, Inl RedisError)"
    using write_reports_single_failure [OF s(1) ne m r one] by (simp add: s)
  have m': "?m' = (fst ?m', fst (snd ?m'), snd (snd ?m'))" by simp
  have r': "?r' = (fst ?r', snd ?r')" by simp
  have one': "isl (snd (fst ?m')) \<noteq> isl (snd (fst ?r'))" by (simp add: s)
  have ne': "[(''a'', 3::nat)] \<noteq> []" by simp
  have b: "fst (write_all ?rt st empty_world 0 sample_heap [(''a'', 3)]) = (0, Inl TypeError)"
    using write_reports_single_failure [OF s(1) ne' m' r' one'] by (simp add: s)
  from st a b show ?thesis by blast
qed

text \<open>
  C6, as stated, fails: the collection rejects the \<open>bulkWrite\<close> at time 1 while the cache
  takes until time 5 to acknowledge its \<open>SET\<close>. \<open>write\<close> is rejected at time 1, when the
  cache operation has not settled yet.
\<close>

theorem write_rejects_before_cache_settles:
  "map_sum id
     (\<lambda>st. case writeMongo (sample_runtime []) st
                 (empty_world\<lparr>mongoFails := True, redisLatency := 5\<rparr>) 0 sample_heap
                 [(''a'', 0)] of
             (p1, h1, w1) \<Rightarrow>
               (isCacheEnabled st, p1,
                fst (writeRedis (sample_runtime []) st w1 0 h1 [(''a'', 0)]),
                fst (write_all (sample_runtime []) st
                       (empty_world\<lparr>mongoFails := True, redisLatency := 5\<rparr>) 0 sample_heap
                       [(''a'', 0)])))
     (MongoStore_new sample_uri cached_options) =
   Inr (True, (1, Inl MongoError), (5, Inr ()), (1, Inl MongoError))"
  by (simp add: sample_defs backend_defs write_all_def writeMongo_def writeRedis_def
      cache_set_def Promise_all_def writeConcern_def sample_heap_def)

section \<open>The version token\<close>












section \<open>The caller's argument\<close>

lemma map_state_upsert_of:
  "map (\<lambda>op. state (snd op)) (map (upsert_of rt t h) (enumerate n xs)) =
   map (\<lambda>e. JSON_stringify rt (with_tag (h (snd (snd e))) (ObjectId_hex rt (fst e))))
     (enumerate n xs)"
  by (induction xs arbitrary: n) (auto simp: upsert_of_def)






section \<open>The round trip\<close>



















end
